theory Spec2Isabelle
  imports Complex_Main "HOL-Library.Word"
begin

unbundle bit_operations_syntax

section \<open>Byte streams and object representations\<close>

type_synonym byte = "8 word"

text \<open>
  The support library (\<^verbatim>\<open>polygen_support.hpp\<close>) copies the object representation of a
  value to and from a stream and assumes a little-endian host (\<^verbatim>\<open>native_to_le\<close> and
  \<^verbatim>\<open>le_to_native\<close> are the identity). \<open>le_bytes n v\<close> is the \<open>n\<close>-byte object
  representation of \<open>v\<close> on such a host (\<open>n\<close> is \<^verbatim>\<open>sizeof(value)\<close>), and \<open>of_le\<close> reads an
  object representation back.
\<close>

fun le_bytes :: "nat \<Rightarrow> 'a::len word \<Rightarrow> byte list" where
  "le_bytes 0 v = []"
| "le_bytes (Suc n) v = ucast v # le_bytes n (drop_bit 8 v)"

fun of_le :: "byte list \<Rightarrow> 'a::len word" where
  "of_le [] = 0"
| "of_le (b # bs) = ucast b OR push_bit 8 (of_le bs)"

definition native_to_le :: "'a::len word \<Rightarrow> 'a word" where
  "native_to_le v = v"

definition le_to_native :: "'a::len word \<Rightarrow> 'a word" where
  "le_to_native v = v"

text \<open>
  \<^verbatim>\<open>float\<close> and \<^verbatim>\<open>double\<close> are only ever copied with \<^verbatim>\<open>memcpy\<close> to and from an
  unsigned integer of the same size, so a floating-point object is modelled by its
  object representation (its bit pattern).
\<close>

datatype float = Float (float_bits: "32 word")
datatype double = Double (double_bits: "64 word")

section \<open>BinaryReader\<close>

text \<open>
  \<^verbatim>\<open>std::istream\<close> as the reader uses it: the bytes not yet extracted, and whether the
  stream is good (\<^verbatim>\<open>operator bool\<close>, that is, \<^verbatim>\<open>!fail()\<close>).
\<close>

record istream =
  rest :: "byte list"
  good :: bool

text \<open>
  \<^verbatim>\<open>stream_.read(buf, n)\<close>: on a failed stream nothing is extracted; with at least \<open>n\<close>
  bytes left exactly \<open>n\<close> are extracted; otherwise what is left is extracted and the
  stream fails (\<^verbatim>\<open>eofbit | failbit\<close>). The result holds the extracted bytes.
\<close>

definition istream_read :: "nat \<Rightarrow> istream \<Rightarrow> byte list \<times> istream" where
  "istream_read n s =
     (if \<not> good s then ([], s)
      else if n \<le> length (rest s) then (take n (rest s), s\<lparr>rest := drop n (rest s)\<rparr>)
      else (rest s, \<lparr>rest = [], good = False\<rparr>))"

text \<open>
  The exceptions of a read: the \<^verbatim>\<open>std::runtime_error\<close> that \<^verbatim>\<open>check_read\<close> throws, and
  \<^verbatim>\<open>std::bad_alloc\<close> and \<^verbatim>\<open>std::length_error\<close>, which the standard containers throw
  when storage of the requested size cannot be had.
\<close>

datatype error = runtime_error string | bad_alloc | length_error

text \<open>
  The one exception the reader itself throws; the specification calls it
  \<open>TruncatedInput\<close>.
\<close>

definition TruncatedInput :: error where
  "TruncatedInput = runtime_error ''Binary read error: unexpected end of stream''"

definition check_read :: "istream \<Rightarrow> error + unit" where
  "check_read s = (if \<not> good s then Inl TruncatedInput else Inr ())"

text \<open>
  A read either throws (\<open>Inl\<close>) or returns (\<open>Inr\<close>); either way the stream it leaves
  behind is part of the result, since the reader holds the stream by reference.
\<close>

type_synonym 'a rd = "istream \<Rightarrow> (error + 'a) \<times> istream"

definition return_rd :: "'a \<Rightarrow> 'a rd" where
  "return_rd v s = (Inr v, s)"

definition bind_rd :: "'a rd \<Rightarrow> ('a \<Rightarrow> 'b rd) \<Rightarrow> 'b rd" where
  "bind_rd m f s = (case m s of (Inl e, s') \<Rightarrow> (Inl e, s') | (Inr v, s') \<Rightarrow> f v s')"

text \<open>\<^verbatim>\<open>stream_.read(p, n); check_read();\<close>\<close>

definition read_raw :: "nat \<Rightarrow> byte list rd" where
  "read_raw n s =
     (case istream_read n s of (bs, s') \<Rightarrow>
        (case check_read s' of Inl e \<Rightarrow> (Inl e, s') | Inr _ \<Rightarrow> (Inr bs, s')))"

text \<open>
  \<^verbatim>\<open>read_string\<close>, \<^verbatim>\<open>read_bytes\<close> and \<^verbatim>\<open>read_vector\<close> construct or reserve a container
  of the declared length before they read its contents (\<^verbatim>\<open>std::string value(len, '\0')\<close>,
  \<^verbatim>\<open>std::vector<uint8_t> result(len)\<close>, \<^verbatim>\<open>result.reserve(count)\<close>). Whether the free
  store provides the storage is not decided by the reader: \<open>alloc n\<close> is the exception that
  a request for \<open>n\<close> elements throws, or \<open>None\<close> when the request succeeds. A request for no
  elements allocates nothing.
\<close>

type_synonym allocator = "nat \<Rightarrow> error option"

definition thrown_by :: "allocator \<Rightarrow> nat \<Rightarrow> error option" where
  "thrown_by alloc n = (if n = 0 then None else alloc n)"

definition allocate :: "allocator \<Rightarrow> nat \<Rightarrow> unit rd" where
  "allocate alloc n s = (case thrown_by alloc n of None \<Rightarrow> (Inr (), s) | Some e \<Rightarrow> (Inl e, s))"

text \<open>A free store that never runs out, and one that provides at most \<open>m\<close> elements.\<close>

definition enough_memory :: allocator where
  "enough_memory n = None"


definition read_u8 :: "8 word rd" where
  "read_u8 = bind_rd (read_raw 1) (\<lambda>bs. return_rd (of_le bs))"

definition read_u16 :: "16 word rd" where
  "read_u16 = bind_rd (read_raw 2) (\<lambda>bs. return_rd (le_to_native (of_le bs)))"

definition read_u32 :: "32 word rd" where
  "read_u32 = bind_rd (read_raw 4) (\<lambda>bs. return_rd (le_to_native (of_le bs)))"

definition read_u64 :: "64 word rd" where
  "read_u64 = bind_rd (read_raw 8) (\<lambda>bs. return_rd (le_to_native (of_le bs)))"

text \<open>
  The signed integers are \<open>int\<close>s within the range of their C++ type;
  \<^verbatim>\<open>static_cast\<close> from the unsigned type of the same width reads the two's complement.
\<close>

definition read_i8 :: "int rd" where
  "read_i8 = bind_rd read_u8 (\<lambda>v. return_rd (sint v))"

definition read_i16 :: "int rd" where
  "read_i16 = bind_rd read_u16 (\<lambda>v. return_rd (sint v))"

definition read_i32 :: "int rd" where
  "read_i32 = bind_rd read_u32 (\<lambda>v. return_rd (sint v))"

definition read_i64 :: "int rd" where
  "read_i64 = bind_rd read_u64 (\<lambda>v. return_rd (sint v))"

definition read_f32 :: "float rd" where
  "read_f32 = bind_rd read_u32 (\<lambda>bits. return_rd (Float bits))"

definition read_f64 :: "double rd" where
  "read_f64 = bind_rd read_u64 (\<lambda>bits. return_rd (Double bits))"

definition read_bool :: "bool rd" where
  "read_bool = bind_rd read_u8 (\<lambda>v. return_rd (v \<noteq> 0))"

text \<open>
  A \<^verbatim>\<open>std::string\<close> is a sequence of \<^verbatim>\<open>char\<close>, each one byte;
  \<^verbatim>\<open>reinterpret_cast\<close> between \<^verbatim>\<open>char*\<close> and \<^verbatim>\<open>uint8_t*\<close> reads the same byte.
\<close>

definition char_of_byte :: "byte \<Rightarrow> char" where
  "char_of_byte b = char_of (unat b)"

definition byte_of_char :: "char \<Rightarrow> byte" where
  "byte_of_char c = of_char c"

definition read_string_alloc :: "allocator \<Rightarrow> string rd" where
  "read_string_alloc alloc =
     bind_rd read_u32 (\<lambda>len.
       if len = 0 then return_rd ''''
       else bind_rd (allocate alloc (unat len)) (\<lambda>_.
         bind_rd (read_raw (unat len)) (\<lambda>bs. return_rd (map char_of_byte bs))))"

text \<open>\<^verbatim>\<open>read_string\<close> on a free store that never runs out.\<close>

definition read_string :: "string rd" where
  "read_string = read_string_alloc enough_memory"

definition read_optional :: "'a rd \<Rightarrow> 'a option rd" where
  "read_optional read_func =
     bind_rd read_u8 (\<lambda>has_value.
       if has_value = 0 then return_rd None
       else bind_rd read_func (\<lambda>v. return_rd (Some v)))"

definition read_optional_string_alloc :: "allocator \<Rightarrow> string option rd" where
  "read_optional_string_alloc alloc =
     bind_rd read_u8 (\<lambda>has_value.
       if has_value = 0 then return_rd None
       else bind_rd (read_string_alloc alloc) (\<lambda>v. return_rd (Some v)))"

text \<open>\<^verbatim>\<open>read_optional_string\<close> on a free store that never runs out.\<close>

definition read_optional_string :: "string option rd" where
  "read_optional_string = read_optional_string_alloc enough_memory"

text \<open>
  The loop of \<^verbatim>\<open>read_vector\<close>: \<open>n\<close> elements still to read, \<open>result\<close> read so far. The
  counter is a \<^verbatim>\<open>uint32_t\<close> below \<open>count\<close>, so it never wraps.
\<close>

fun read_items :: "'a rd \<Rightarrow> nat \<Rightarrow> 'a list \<Rightarrow> 'a list rd" where
  "read_items read_func 0 result s = (Inr result, s)"
| "read_items read_func (Suc n) result s =
     (case read_func s of
        (Inl e, s') \<Rightarrow> (Inl e, s')
      | (Inr v, s') \<Rightarrow> read_items read_func n (result @ [v]) s')"

definition read_vector_alloc :: "allocator \<Rightarrow> 'a rd \<Rightarrow> 'a list rd" where
  "read_vector_alloc alloc read_func =
     bind_rd read_u32 (\<lambda>count.
       bind_rd (allocate alloc (unat count)) (\<lambda>_. read_items read_func (unat count) []))"

text \<open>\<^verbatim>\<open>read_vector\<close> on a free store that never runs out.\<close>

definition read_vector :: "'a rd \<Rightarrow> 'a list rd" where
  "read_vector read_func = read_vector_alloc enough_memory read_func"

definition read_bytes_alloc :: "allocator \<Rightarrow> byte list rd" where
  "read_bytes_alloc alloc =
     bind_rd read_u32 (\<lambda>len.
       bind_rd (allocate alloc (unat len)) (\<lambda>_.
         if 0 < unat len then read_raw (unat len) else return_rd []))"

text \<open>\<^verbatim>\<open>read_bytes\<close> on a free store that never runs out.\<close>

definition read_bytes :: "byte list rd" where
  "read_bytes = read_bytes_alloc enough_memory"


text \<open>\<^verbatim>\<open>BinaryReader(const std::vector<uint8_t>& data)\<close>: a fresh stream over a copy of \<open>data\<close>.\<close>

definition BinaryReader_vector :: "byte list \<Rightarrow> istream" where
  "BinaryReader_vector data = \<lparr>rest = data, good = True\<rparr>"

section \<open>BinaryWriter\<close>

text \<open>
  The members \<^verbatim>\<open>vec_\<close>, \<^verbatim>\<open>owned_stream_\<close> and \<^verbatim>\<open>stream_\<close>, without the trailing
  underscore. \<open>vec\<close> is the vector the writer was constructed over (its current contents), or
  \<open>None\<close> for \<^verbatim>\<open>nullptr\<close>; \<open>owned_stream\<close> tells whether the writer owns its stream;
  \<open>stream\<close> is what the writer has written to its stream so far.
\<close>

record BinaryWriter =
  vec :: "byte list option"
  owned_stream :: bool
  stream :: "byte list"

text \<open>\<^verbatim>\<open>BinaryWriter(std::vector<uint8_t>& data)\<close>\<close>

definition BinaryWriter_vector :: "byte list \<Rightarrow> BinaryWriter" where
  "BinaryWriter_vector data = \<lparr>vec = Some data, owned_stream = True, stream = []\<rparr>"

text \<open>
  \<^verbatim>\<open>BinaryWriter(std::ostream& stream)\<close>: the stream is the caller's, and \<open>stream\<close> holds
  what this writer has written to it, nothing yet.
\<close>

definition BinaryWriter_ostream :: BinaryWriter where
  "BinaryWriter_ostream = \<lparr>vec = None, owned_stream = False, stream = []\<rparr>"

definition flush :: "BinaryWriter \<Rightarrow> BinaryWriter" where
  "flush w = (if vec w \<noteq> None \<and> owned_stream w then w\<lparr>vec := Some (stream w)\<rparr> else w)"

text \<open>\<^verbatim>\<open>~BinaryWriter() { flush(); }\<close>\<close>

definition BinaryWriter_destructor :: "BinaryWriter \<Rightarrow> BinaryWriter" where
  "BinaryWriter_destructor w = flush w"

text \<open>\<^verbatim>\<open>stream_.write(p, n)\<close>\<close>

definition ostream_write :: "byte list \<Rightarrow> BinaryWriter \<Rightarrow> BinaryWriter" where
  "ostream_write bs w = w\<lparr>stream := stream w @ bs\<rparr>"

definition write_u8 :: "8 word \<Rightarrow> BinaryWriter \<Rightarrow> BinaryWriter" where
  "write_u8 v = ostream_write (le_bytes 1 v)"

definition write_u16 :: "16 word \<Rightarrow> BinaryWriter \<Rightarrow> BinaryWriter" where
  "write_u16 v = ostream_write (le_bytes 2 (native_to_le v))"

definition write_u32 :: "32 word \<Rightarrow> BinaryWriter \<Rightarrow> BinaryWriter" where
  "write_u32 v = ostream_write (le_bytes 4 (native_to_le v))"

definition write_u64 :: "64 word \<Rightarrow> BinaryWriter \<Rightarrow> BinaryWriter" where
  "write_u64 v = ostream_write (le_bytes 8 (native_to_le v))"

definition write_i8 :: "int \<Rightarrow> BinaryWriter \<Rightarrow> BinaryWriter" where
  "write_i8 v = write_u8 (word_of_int v)"

definition write_i16 :: "int \<Rightarrow> BinaryWriter \<Rightarrow> BinaryWriter" where
  "write_i16 v = write_u16 (word_of_int v)"

definition write_i32 :: "int \<Rightarrow> BinaryWriter \<Rightarrow> BinaryWriter" where
  "write_i32 v = write_u32 (word_of_int v)"

definition write_i64 :: "int \<Rightarrow> BinaryWriter \<Rightarrow> BinaryWriter" where
  "write_i64 v = write_u64 (word_of_int v)"

definition write_f32 :: "float \<Rightarrow> BinaryWriter \<Rightarrow> BinaryWriter" where
  "write_f32 v = write_u32 (float_bits v)"

definition write_f64 :: "double \<Rightarrow> BinaryWriter \<Rightarrow> BinaryWriter" where
  "write_f64 v = write_u64 (double_bits v)"

definition write_bool :: "bool \<Rightarrow> BinaryWriter \<Rightarrow> BinaryWriter" where
  "write_bool v = write_u8 (if v then 1 else 0)"

text \<open>\<^verbatim>\<open>static_cast<uint32_t>(value.size())\<close> keeps the low 32 bits of the size.\<close>

definition write_string :: "string \<Rightarrow> BinaryWriter \<Rightarrow> BinaryWriter" where
  "write_string v w =
     (let w' = write_u32 (of_nat (length v)) w
      in if v \<noteq> [] then ostream_write (map byte_of_char v) w' else w')"

definition write_optional ::
  "'a option \<Rightarrow> ('a \<Rightarrow> BinaryWriter \<Rightarrow> BinaryWriter) \<Rightarrow> BinaryWriter \<Rightarrow> BinaryWriter" where
  "write_optional v write_func w =
     (case v of Some x \<Rightarrow> write_func x (write_u8 1 w) | None \<Rightarrow> write_u8 0 w)"

definition write_optional_string :: "string option \<Rightarrow> BinaryWriter \<Rightarrow> BinaryWriter" where
  "write_optional_string v w =
     (case v of Some x \<Rightarrow> write_string x (write_u8 1 w) | None \<Rightarrow> write_u8 0 w)"

definition write_vector ::
  "'a list \<Rightarrow> ('a \<Rightarrow> BinaryWriter \<Rightarrow> BinaryWriter) \<Rightarrow> BinaryWriter \<Rightarrow> BinaryWriter" where
  "write_vector items write_func w = fold write_func items (write_u32 (of_nat (length items)) w)"

definition write_bytes :: "byte list \<Rightarrow> BinaryWriter \<Rightarrow> BinaryWriter" where
  "write_bytes v w =
     (let w' = write_u32 (of_nat (length v)) w
      in if v \<noteq> [] then ostream_write v w' else w')"

definition write_enum :: "int \<Rightarrow> BinaryWriter \<Rightarrow> BinaryWriter" where
  "write_enum v = write_i32 v"

text \<open>
  How the generated loaders and the tests use the two classes
  (\<^verbatim>\<open>test_binary_serialization\<close>): an empty \<^verbatim>\<open>buffer\<close>, a writer over it that is
  destroyed (and so flushed) after the writes, then a reader over \<^verbatim>\<open>buffer\<close>.
\<close>

definition serialize :: "(BinaryWriter \<Rightarrow> BinaryWriter) \<Rightarrow> byte list" where
  "serialize writes =
     (case vec (BinaryWriter_destructor (writes (BinaryWriter_vector []))) of
        Some buffer \<Rightarrow> buffer
      | None \<Rightarrow> [])"

definition deserialize :: "'a rd \<Rightarrow> byte list \<Rightarrow> error + 'a" where
  "deserialize reads buffer = fst (reads (BinaryReader_vector buffer))"

section \<open>The primitive kinds\<close>

text \<open>
  The primitive reads and writes of the two classes, collected so that a statement can
  range over all of them: \<open>write_value\<close> and \<open>read_value\<close> only dispatch to the member
  function of the kind.
\<close>

datatype kind =
  KU8 | KU16 | KU32 | KU64 | KI8 | KI16 | KI32 | KI64 | KF32 | KF64 | KBool | KString | KBytes

datatype wire_value =
    VU8 "8 word" | VU16 "16 word" | VU32 "32 word" | VU64 "64 word"
  | VI8 int | VI16 int | VI32 int | VI64 int
  | VF32 float | VF64 double | VBool bool | VString string | VBytes "byte list"

fun kind_of :: "wire_value \<Rightarrow> kind" where
  "kind_of (VU8 v) = KU8"
| "kind_of (VU16 v) = KU16"
| "kind_of (VU32 v) = KU32"
| "kind_of (VU64 v) = KU64"
| "kind_of (VI8 v) = KI8"
| "kind_of (VI16 v) = KI16"
| "kind_of (VI32 v) = KI32"
| "kind_of (VI64 v) = KI64"
| "kind_of (VF32 v) = KF32"
| "kind_of (VF64 v) = KF64"
| "kind_of (VBool v) = KBool"
| "kind_of (VString v) = KString"
| "kind_of (VBytes v) = KBytes"

fun write_value :: "wire_value \<Rightarrow> BinaryWriter \<Rightarrow> BinaryWriter" where
  "write_value (VU8 v) = write_u8 v"
| "write_value (VU16 v) = write_u16 v"
| "write_value (VU32 v) = write_u32 v"
| "write_value (VU64 v) = write_u64 v"
| "write_value (VI8 v) = write_i8 v"
| "write_value (VI16 v) = write_i16 v"
| "write_value (VI32 v) = write_i32 v"
| "write_value (VI64 v) = write_i64 v"
| "write_value (VF32 v) = write_f32 v"
| "write_value (VF64 v) = write_f64 v"
| "write_value (VBool v) = write_bool v"
| "write_value (VString v) = write_string v"
| "write_value (VBytes v) = write_bytes v"

fun read_value :: "kind \<Rightarrow> wire_value rd" where
  "read_value KU8 = bind_rd read_u8 (\<lambda>v. return_rd (VU8 v))"
| "read_value KU16 = bind_rd read_u16 (\<lambda>v. return_rd (VU16 v))"
| "read_value KU32 = bind_rd read_u32 (\<lambda>v. return_rd (VU32 v))"
| "read_value KU64 = bind_rd read_u64 (\<lambda>v. return_rd (VU64 v))"
| "read_value KI8 = bind_rd read_i8 (\<lambda>v. return_rd (VI8 v))"
| "read_value KI16 = bind_rd read_i16 (\<lambda>v. return_rd (VI16 v))"
| "read_value KI32 = bind_rd read_i32 (\<lambda>v. return_rd (VI32 v))"
| "read_value KI64 = bind_rd read_i64 (\<lambda>v. return_rd (VI64 v))"
| "read_value KF32 = bind_rd read_f32 (\<lambda>v. return_rd (VF32 v))"
| "read_value KF64 = bind_rd read_f64 (\<lambda>v. return_rd (VF64 v))"
| "read_value KBool = bind_rd read_bool (\<lambda>v. return_rd (VBool v))"
| "read_value KString = bind_rd read_string (\<lambda>v. return_rd (VString v))"
| "read_value KBytes = bind_rd read_bytes (\<lambda>v. return_rd (VBytes v))"

text \<open>The values of the C++ types: a signed integer lies within the range of its width.\<close>

fun well_typed :: "wire_value \<Rightarrow> bool" where
  "well_typed (VI8 v) = (- (2 ^ 7) \<le> v \<and> v < 2 ^ 7)"
| "well_typed (VI16 v) = (- (2 ^ 15) \<le> v \<and> v < 2 ^ 15)"
| "well_typed (VI32 v) = (- (2 ^ 31) \<le> v \<and> v < 2 ^ 31)"
| "well_typed (VI64 v) = (- (2 ^ 63) \<le> v \<and> v < 2 ^ 63)"
| "well_typed _ = True"

text \<open>The size of a string or byte vector fits the \<^verbatim>\<open>uint32_t\<close> length prefix.\<close>

fun length_fits :: "wire_value \<Rightarrow> bool" where
  "length_fits (VString v) = (length v < 2 ^ 32)"
| "length_fits (VBytes v) = (length v < 2 ^ 32)"
| "length_fits _ = True"


text \<open>
  The primitive reads with the allocator made explicit; \<open>read_value\<close> is \<open>read_value_alloc\<close>
  on a free store that never runs out.
\<close>

fun read_value_alloc :: "allocator \<Rightarrow> kind \<Rightarrow> wire_value rd" where
  "read_value_alloc alloc KString = bind_rd (read_string_alloc alloc) (\<lambda>v. return_rd (VString v))"
| "read_value_alloc alloc KBytes = bind_rd (read_bytes_alloc alloc) (\<lambda>v. return_rd (VBytes v))"
| "read_value_alloc alloc k = read_value k"


section \<open>Calls of the writer\<close>

text \<open>
  The write calls a user of \<^verbatim>\<open>BinaryWriter\<close> can make. The callback of
  \<^verbatim>\<open>write_optional\<close> and \<^verbatim>\<open>write_vector\<close> makes write calls on the same writer in turn.
\<close>

datatype write_call =
    Write_value wire_value
  | Write_enum int
  | Write_optional_string "string option"
  | Write_optional "write_call option"
  | Write_vector "write_call list"

lemma write_optional_cong [fundef_cong]:
  "v = v' \<Longrightarrow> w = w' \<Longrightarrow> (\<And>x u. v' = Some x \<Longrightarrow> f x u = g x u)
   \<Longrightarrow> write_optional v f w = write_optional v' g w'"
  by (simp add: write_optional_def split: option.splits)

lemma write_vector_cong [fundef_cong]:
  "xs = ys \<Longrightarrow> w = w' \<Longrightarrow> (\<And>x u. x \<in> set ys \<Longrightarrow> f x u = g x u)
   \<Longrightarrow> write_vector xs f w = write_vector ys g w'"
  unfolding write_vector_def by (auto intro!: fold_cong)

fun call :: "write_call \<Rightarrow> BinaryWriter \<Rightarrow> BinaryWriter" where
  "call (Write_value v) w = write_value v w"
| "call (Write_enum v) w = write_enum v w"
| "call (Write_optional_string v) w = write_optional_string v w"
| "call (Write_optional v) w = write_optional v call w"
| "call (Write_vector items) w = write_vector items call w"

section \<open>Index layer\<close>

text \<open>A \<^verbatim>\<open>V*\<close>: null, or the address of a row.\<close>

datatype 'p ptr = nullptr | Ptr 'p

text \<open>\<^verbatim>\<open>std::unordered_map<K, V*> index_\<close>\<close>

record ('k, 'p) UniqueIndex =
  unique_index :: "'k \<rightharpoonup> 'p ptr"

definition UniqueIndex_empty :: "('k, 'p) UniqueIndex" where
  "UniqueIndex_empty = \<lparr>unique_index = Map.empty\<rparr>"

definition UniqueIndex_insert :: "'k \<Rightarrow> 'p ptr \<Rightarrow> ('k, 'p) UniqueIndex \<Rightarrow> ('k, 'p) UniqueIndex" where
  "UniqueIndex_insert key v idx = idx\<lparr>unique_index := (unique_index idx)(key \<mapsto> v)\<rparr>"

definition UniqueIndex_get :: "('k, 'p) UniqueIndex \<Rightarrow> 'k \<Rightarrow> 'p ptr" where
  "UniqueIndex_get idx key = (case unique_index idx key of Some v \<Rightarrow> v | None \<Rightarrow> nullptr)"

definition UniqueIndex_contains :: "('k, 'p) UniqueIndex \<Rightarrow> 'k \<Rightarrow> bool" where
  "UniqueIndex_contains idx key = (unique_index idx key \<noteq> None)"

definition UniqueIndex_clear :: "('k, 'p) UniqueIndex \<Rightarrow> ('k, 'p) UniqueIndex" where
  "UniqueIndex_clear idx = idx\<lparr>unique_index := Map.empty\<rparr>"

text \<open>
  \<^verbatim>\<open>std::unordered_map<K, std::vector<V*>> index_\<close>; \<^verbatim>\<open>index_[key]\<close> creates an empty
  vector for a key that has none. The shared \<^verbatim>\<open>empty_\<close> vector is only handed out by
  const reference and stays empty.
\<close>

record ('k, 'p) GroupIndex =
  group_index :: "'k \<rightharpoonup> 'p ptr list"

definition GroupIndex_empty :: "('k, 'p) GroupIndex" where
  "GroupIndex_empty = \<lparr>group_index = Map.empty\<rparr>"

definition GroupIndex_insert :: "'k \<Rightarrow> 'p ptr \<Rightarrow> ('k, 'p) GroupIndex \<Rightarrow> ('k, 'p) GroupIndex" where
  "GroupIndex_insert key v idx =
     idx\<lparr>group_index := (group_index idx)
       (key \<mapsto> (case group_index idx key of Some vs \<Rightarrow> vs | None \<Rightarrow> []) @ [v])\<rparr>"

definition GroupIndex_get :: "('k, 'p) GroupIndex \<Rightarrow> 'k \<Rightarrow> 'p ptr list" where
  "GroupIndex_get idx key = (case group_index idx key of Some vs \<Rightarrow> vs | None \<Rightarrow> [])"

definition GroupIndex_contains :: "('k, 'p) GroupIndex \<Rightarrow> 'k \<Rightarrow> bool" where
  "GroupIndex_contains idx key = (group_index idx key \<noteq> None)"

definition GroupIndex_clear :: "('k, 'p) GroupIndex \<Rightarrow> ('k, 'p) GroupIndex" where
  "GroupIndex_clear idx = idx\<lparr>group_index := Map.empty\<rparr>"

section \<open>DataTable\<close>

text \<open>
  \<^verbatim>\<open>std::deque<T> rows_\<close>. \<^verbatim>\<open>push_back\<close> on a deque leaves every reference to an element
  valid, so the element at position \<open>i\<close> is one object for as long as the deque is not
  cleared, and a reference to a row is modelled by the row's position. Indexing past the
  end is undefined in C++; \<open>DataTable_at\<close> gives \<open>None\<close> there.
\<close>

record 'a DataTable =
  rows :: "'a list"

definition DataTable_empty :: "'a DataTable" where
  "DataTable_empty = \<lparr>rows = []\<rparr>"

definition add_row :: "'a \<Rightarrow> 'a DataTable \<Rightarrow> 'a DataTable" where
  "add_row row t = t\<lparr>rows := rows t @ [row]\<rparr>"

definition count :: "'a DataTable \<Rightarrow> nat" where
  "count t = length (rows t)"

definition DataTable_at :: "'a DataTable \<Rightarrow> nat \<Rightarrow> 'a option" where
  "DataTable_at t i = (if i < length (rows t) then Some (rows t ! i) else None)"

definition DataTable_clear :: "'a DataTable \<Rightarrow> 'a DataTable" where
  "DataTable_clear t = t\<lparr>rows := []\<rparr>"

text \<open>What a row pointer refers to in a table (\<^verbatim>\<open>*p\<close>): nothing for a null pointer.\<close>

definition deref :: "'a DataTable \<Rightarrow> nat ptr \<Rightarrow> 'a option" where
  "deref t p = (case p of nullptr \<Rightarrow> None | Ptr i \<Rightarrow> DataTable_at t i)"

section \<open>Schema container\<close>

text \<open>
  Modelled from the spec: the container (\<^verbatim>\<open>schema_container.hpp\<close>) is generated by the
  schema compiler and is not part of the support library. Per the specification, a table of the container owns one row
  store, one \<open>UniqueIndex\<close> per unique column and one \<open>GroupIndex\<close> per foreign-key
  column; each \<open>add_row\<close> stores the row and registers its address in every index; the
  reset clears the row store and the indexes in lock-step. One unique column (\<open>key_of\<close>)
  and one foreign-key column (\<open>group_of\<close>) stand for the declared columns.
\<close>

record ('k, 'g, 'a) Table =
  table_rows :: "'a DataTable"
  by_key :: "('k, nat) UniqueIndex"
  by_group :: "('g, nat) GroupIndex"

text \<open>Modelled from the spec: a table of the container is created empty.\<close>

definition Table_empty :: "('k, 'g, 'a) Table" where
  "Table_empty = \<lparr>table_rows = DataTable_empty, by_key = UniqueIndex_empty, by_group = GroupIndex_empty\<rparr>"

text \<open>
  Modelled from the spec: \<open>add_row\<close> of a table stores the row and registers the address of
  the stored row (its position in the row store) in every index of the table.
\<close>

definition Table_add_row ::
  "('a \<Rightarrow> 'k) \<Rightarrow> ('a \<Rightarrow> 'g) \<Rightarrow> 'a \<Rightarrow> ('k, 'g, 'a) Table \<Rightarrow> ('k, 'g, 'a) Table" where
  "Table_add_row key_of group_of row c =
     (let p = Ptr (count (table_rows c))
      in \<lparr>table_rows = add_row row (table_rows c),
          by_key = UniqueIndex_insert (key_of row) p (by_key c),
          by_group = GroupIndex_insert (group_of row) p (by_group c)\<rparr>)"

text \<open>
  Modelled from the spec: the reset of a table clears the row store and its indexes in
  lock-step.
\<close>

definition Table_clear :: "('k, 'g, 'a) Table \<Rightarrow> ('k, 'g, 'a) Table" where
  "Table_clear c =
     \<lparr>table_rows = DataTable_clear (table_rows c),
      by_key = UniqueIndex_clear (by_key c),
      by_group = GroupIndex_clear (by_group c)\<rparr>"

section \<open>Pack codec\<close>

text \<open>
  Modelled from the spec: \<^verbatim>\<open>unpack\<close> and \<^verbatim>\<open>try_unpack\<close> are generated into
  \<^verbatim>\<open>schema.hpp\<close> by the schema compiler and are not part of the support library; their
  test is \<^verbatim>\<open>test_10_pack_embed.cpp\<close>. Per the specification, a pack type has one delimiter
  character and its fields in declared order; \<open>unpack\<close> splits on the delimiter and
  parses each part positionally as its field's type, signalling a failure when the part
  count differs from the field count or a part does not parse; \<open>try_unpack\<close> performs the
  same parse and reports the failure as a boolean. A field is given by its parser, which
  yields \<open>None\<close> on a part that does not parse as the field's type.
\<close>

record 'v pack_type =
  delimiter :: char
  field_parsers :: "(string \<Rightarrow> 'v option) list"

text \<open>
  Modelled from the spec: the two failures of \<open>unpack\<close> in the specification's error
  taxonomy.
\<close>

datatype pack_error = PackArityMismatch | PackParseFailure

text \<open>
  Modelled from the spec: splitting on the delimiter; a string with \<open>n\<close> delimiters has
  \<open>n + 1\<close> parts.
\<close>

fun split :: "char \<Rightarrow> string \<Rightarrow> string list" where
  "split d [] = [[]]"
| "split d (c # cs) =
     (if c = d then [] # split d cs
      else (case split d cs of [] \<Rightarrow> [[c]] | part # parts \<Rightarrow> (c # part) # parts))"

text \<open>
  Modelled from the spec: each part is parsed positionally as the field of the same
  position.
\<close>

fun parse_fields :: "(string \<Rightarrow> 'v option) list \<Rightarrow> string list \<Rightarrow> 'v list option" where
  "parse_fields [] [] = Some []"
| "parse_fields (f # fs) (part # parts) =
     (case f part of
        None \<Rightarrow> None
      | Some v \<Rightarrow> (case parse_fields fs parts of None \<Rightarrow> None | Some vs \<Rightarrow> Some (v # vs)))"
| "parse_fields _ _ = None"

text \<open>
  Modelled from the spec: \<open>unpack\<close> signals a failure (\<open>Inl\<close>) when the part count differs
  from the field count or a part does not parse.
\<close>

definition unpack :: "'v pack_type \<Rightarrow> string \<Rightarrow> pack_error + 'v list" where
  "unpack T s =
     (let parts = split (delimiter T) s
      in if length parts \<noteq> length (field_parsers T) then Inl PackArityMismatch
         else (case parse_fields (field_parsers T) parts of
                 None \<Rightarrow> Inl PackParseFailure
               | Some vs \<Rightarrow> Inr vs))"

text \<open>
  Modelled from the spec: \<open>try_unpack\<close> performs the same parse and reports failure as a
  boolean. The result of \<open>try_unpack\<close> is \<open>Some v\<close> for \<^verbatim>\<open>true\<close> with the output value \<open>v\<close>, and
  \<open>None\<close> for \<^verbatim>\<open>false\<close>, where the specification leaves the output value unspecified.
\<close>

definition try_unpack :: "'v pack_type \<Rightarrow> string \<Rightarrow> 'v list option" where
  "try_unpack T s =
     (let parts = split (delimiter T) s
      in if length parts = length (field_parsers T) then parse_fields (field_parsers T) parts else None)"

text \<open>
  Modelled from the spec: the locale-independent decimal form of a floating-point field
  (an optional \<open>-\<close>, digits, and optionally \<open>.\<close> and digits), read as a rational number.
\<close>

definition digit_value :: "char \<Rightarrow> nat option" where
  "digit_value c =
     (let n = (of_char c :: nat) in if 48 \<le> n \<and> n \<le> 57 then Some (n - 48) else None)"

text \<open>Modelled from the spec: a run of decimal digits, read as a natural number.\<close>

fun parse_digits :: "string \<Rightarrow> nat \<Rightarrow> nat option" where
  "parse_digits [] acc = Some acc"
| "parse_digits (c # cs) acc =
     (case digit_value c of None \<Rightarrow> None | Some d \<Rightarrow> parse_digits cs (10 * acc + d))"

text \<open>
  Modelled from the spec: digits, optionally followed by \<open>.\<close> and digits; no grouping
  separators, no exponent.
\<close>

definition parse_unsigned :: "string \<Rightarrow> rat option" where
  "parse_unsigned s =
     (let whole = takeWhile (\<lambda>c. c \<noteq> CHR ''.'') s;
          point = dropWhile (\<lambda>c. c \<noteq> CHR ''.'') s
      in if whole = [] then None
         else (case parse_digits whole 0 of
                 None \<Rightarrow> None
               | Some n \<Rightarrow>
                   (case point of
                      [] \<Rightarrow> Some (of_nat n)
                    | _ # decimals \<Rightarrow>
                        if decimals = [] then None
                        else (case parse_digits decimals 0 of
                                None \<Rightarrow> None
                              | Some m \<Rightarrow> Some (of_nat n + of_nat m / 10 ^ length decimals)))))"

text \<open>Modelled from the spec: the decimal form with its optional leading \<open>-\<close>.\<close>

definition parse_float :: "string \<Rightarrow> rat option" where
  "parse_float s =
     (case s of
        [] \<Rightarrow> None
      | c # cs \<Rightarrow> if c = CHR ''-'' then map_option uminus (parse_unsigned cs) else parse_unsigned s)"

text \<open>
  Modelled from the spec: the \<^verbatim>\<open>Position\<close> embed that \<^verbatim>\<open>test_10_pack_embed.cpp\<close> uses, a
  pack type of two float fields with the delimiter \<open>;\<close>.
\<close>

definition Position :: "rat pack_type" where
  "Position = \<lparr>delimiter = CHR '';'', field_parsers = [parse_float, parse_float]\<rparr>"

section \<open>Reads on a free store that never runs out\<close>

lemma allocate_enough_memory: "allocate enough_memory n s = (Inr (), s)"
  by (simp add: allocate_def thrown_by_def enough_memory_def)

lemma bind_rd_allocate_enough_memory: "bind_rd (allocate enough_memory n) f = f ()"
  by (rule ext) (simp add: bind_rd_def allocate_enough_memory)

lemma read_string_unfold:
  "read_string =
     bind_rd read_u32 (\<lambda>len.
       if len = 0 then return_rd ''''
       else bind_rd (read_raw (unat len)) (\<lambda>bs. return_rd (map char_of_byte bs)))"
  by (simp add: read_string_def read_string_alloc_def bind_rd_allocate_enough_memory cong: if_cong)

lemma read_optional_string_unfold:
  "read_optional_string =
     bind_rd read_u8 (\<lambda>has_value.
       if has_value = 0 then return_rd None
       else bind_rd read_string (\<lambda>v. return_rd (Some v)))"
  by (simp add: read_optional_string_def read_optional_string_alloc_def read_string_def cong: if_cong)

lemma read_vector_unfold:
  "read_vector read_func =
     bind_rd read_u32 (\<lambda>count. read_items read_func (unat count) [])"
  by (simp add: read_vector_def read_vector_alloc_def bind_rd_allocate_enough_memory cong: if_cong)

lemma read_bytes_unfold:
  "read_bytes =
     bind_rd read_u32 (\<lambda>len.
       if 0 < unat len then read_raw (unat len) else return_rd [])"
  by (simp add: read_bytes_def read_bytes_alloc_def bind_rd_allocate_enough_memory cong: if_cong)

section \<open>Round trip of the primitive kinds\<close>

lemma of_le_le_bytes_take: "of_le (le_bytes n (v::'a::len word)) = take_bit (8 * n) v"
proof (induction n arbitrary: v)
  case 0 show ?case by simp
next
  case (Suc n)
  show ?case
    apply (simp add: Suc)
    apply (rule bit_word_eqI)
    apply (auto simp: bit_simps)
    done
qed

lemma of_le_le_bytes: "LENGTH('a::len) \<le> 8 * n \<Longrightarrow> of_le (le_bytes n (v::'a word)) = v"
  by (simp add: of_le_le_bytes_take take_bit_word_eq_self)

lemma length_le_bytes: "length (le_bytes n v) = n"
  by (induction n arbitrary: v) simp_all

lemma read_raw_exact:
  "length bs = n \<Longrightarrow> read_raw n (BinaryReader_vector (bs @ after)) = (Inr bs, BinaryReader_vector after)"
  by (simp add: read_raw_def istream_read_def check_read_def BinaryReader_vector_def)

lemma read_word_exact:
  "LENGTH('a::len) \<le> 8 * n \<Longrightarrow>
   bind_rd (read_raw n) (\<lambda>bs. return_rd (le_to_native (of_le bs)))
     (BinaryReader_vector (le_bytes n (v::'a word) @ after)) = (Inr v, BinaryReader_vector after)"
  by (simp add: bind_rd_def return_rd_def read_raw_exact length_le_bytes of_le_le_bytes le_to_native_def)

lemma read_u8_exact: "read_u8 (BinaryReader_vector (le_bytes 1 v @ after)) = (Inr v, BinaryReader_vector after)"
  using read_word_exact [of 1 v after] by (simp add: read_u8_def le_to_native_def)

lemma read_u16_exact: "read_u16 (BinaryReader_vector (le_bytes 2 v @ after)) = (Inr v, BinaryReader_vector after)"
  using read_word_exact [of 2 v after] by (simp add: read_u16_def)

lemma read_u32_exact: "read_u32 (BinaryReader_vector (le_bytes 4 v @ after)) = (Inr v, BinaryReader_vector after)"
  using read_word_exact [of 4 v after] by (simp add: read_u32_def)

lemma read_u64_exact: "read_u64 (BinaryReader_vector (le_bytes 8 v @ after)) = (Inr v, BinaryReader_vector after)"
  using read_word_exact [of 8 v after] by (simp add: read_u64_def)

lemma serialize_ostream_write: "serialize (ostream_write bs) = bs"
  by (simp add: serialize_def ostream_write_def flush_def BinaryWriter_destructor_def
      BinaryWriter_vector_def)

lemma ostream_write_twice: "ostream_write b (ostream_write a w) = ostream_write (a @ b) w"
  by (simp add: ostream_write_def)

lemma char_of_byte_of_char: "char_of_byte (byte_of_char c) = c"
proof -
  have "(of_char c :: byte) = of_nat (of_char c)" by (simp only: of_nat_of_char)
  then have "unat (of_char c :: byte) = (of_char c :: nat) mod 256"
    by (simp only: unat_of_nat) simp
  then show ?thesis by (simp add: char_of_byte_def byte_of_char_def)
qed

lemma map_char_of_byte_of_char: "map char_of_byte (map byte_of_char s) = s"
  by (induction s) (simp_all add: char_of_byte_of_char)

lemma write_string_eq:
  "write_string v w = ostream_write (le_bytes 4 (of_nat (length v) :: 32 word) @ map byte_of_char v) w"
  by (cases v) (simp_all add: write_string_def Let_def write_u32_def native_to_le_def ostream_write_twice del: le_bytes.simps)

lemma write_bytes_eq:
  "write_bytes v w = ostream_write (le_bytes 4 (of_nat (length v) :: 32 word) @ v) w"
  by (cases v) (simp_all add: write_bytes_def Let_def write_u32_def native_to_le_def ostream_write_twice del: le_bytes.simps)

lemma read_string_exact:
  assumes "length v < 2 ^ 32"
  shows "read_string (BinaryReader_vector ((le_bytes 4 (of_nat (length v) :: 32 word) @ map byte_of_char v) @ after))
    = (Inr v, BinaryReader_vector after)"
proof (cases "v = []")
  case True
  then show ?thesis using read_u32_exact [of 0 after]
    by (simp add: read_string_unfold bind_rd_def return_rd_def del: le_bytes.simps)
next
  case False
  from assms have u: "unat (of_nat (length v) :: 32 word) = length v"
    by (simp add: unat_of_nat)
  with False have nz: "(of_nat (length v) :: 32 word) \<noteq> 0"
    by (metis length_0_conv unat_0)
  show ?thesis
    using read_u32_exact [of "of_nat (length v)" "map byte_of_char v @ after"]
      read_raw_exact [of "map byte_of_char v" "length v" after]
    by (simp add: read_string_unfold bind_rd_def return_rd_def u nz comp_def char_of_byte_of_char del: le_bytes.simps)
qed

lemma read_bytes_exact:
  assumes "length v < 2 ^ 32"
  shows "read_bytes (BinaryReader_vector ((le_bytes 4 (of_nat (length v) :: 32 word) @ v) @ after))
    = (Inr v, BinaryReader_vector after)"
proof -
  from assms have u: "unat (of_nat (length v) :: 32 word) = length v"
    by (simp add: unat_of_nat)
  show ?thesis
    using read_u32_exact [of "of_nat (length v)" "v @ after"]
      read_raw_exact [of v "length v" after]
    by (cases "v = []") (simp_all add: read_bytes_unfold bind_rd_def return_rd_def u del: le_bytes.simps)
qed

lemma sint_word_of_int_range:
  "- (2 ^ (LENGTH('a::len) - 1)) \<le> v \<Longrightarrow> v < 2 ^ (LENGTH('a) - 1) \<Longrightarrow> sint (word_of_int v :: 'a word) = v"
  by (simp add: sint_sbintrunc' signed_take_bit_int_eq_self)

lemma read_value_write_value:
  assumes "well_typed v" and "length_fits v"
  shows "read_value (kind_of v) (BinaryReader_vector (serialize (write_value v) @ after))
         = (Inr v, BinaryReader_vector after)"
proof (cases v)
  case (VU8 x) then show ?thesis using read_u8_exact [of x after]
    by (simp add: write_u8_def serialize_ostream_write bind_rd_def return_rd_def del: le_bytes.simps)
next
  case (VU16 x) then show ?thesis using read_u16_exact [of x after]
    by (simp add: write_u16_def native_to_le_def serialize_ostream_write bind_rd_def return_rd_def del: le_bytes.simps)
next
  case (VU32 x) then show ?thesis using read_u32_exact [of x after]
    by (simp add: write_u32_def native_to_le_def serialize_ostream_write bind_rd_def return_rd_def del: le_bytes.simps)
next
  case (VU64 x) then show ?thesis using read_u64_exact [of x after]
    by (simp add: write_u64_def native_to_le_def serialize_ostream_write bind_rd_def return_rd_def del: le_bytes.simps)
next
  case (VI8 x) 
  with assms have "sint (word_of_int x :: 8 word) = x" by (simp add: sint_sbintrunc' signed_take_bit_int_eq_self)
  with VI8 show ?thesis using read_u8_exact [of "word_of_int x" after]
    by (simp add: write_i8_def read_i8_def write_u8_def serialize_ostream_write bind_rd_def return_rd_def del: le_bytes.simps)
next
  case (VI16 x)
  with assms have "sint (word_of_int x :: 16 word) = x" by (simp add: sint_sbintrunc' signed_take_bit_int_eq_self)
  with VI16 show ?thesis using read_u16_exact [of "word_of_int x" after]
    by (simp add: write_i16_def read_i16_def write_u16_def native_to_le_def serialize_ostream_write bind_rd_def return_rd_def del: le_bytes.simps)
next
  case (VI32 x)
  with assms have "sint (word_of_int x :: 32 word) = x" by (simp add: sint_sbintrunc' signed_take_bit_int_eq_self)
  with VI32 show ?thesis using read_u32_exact [of "word_of_int x" after]
    by (simp add: write_i32_def read_i32_def write_u32_def native_to_le_def serialize_ostream_write bind_rd_def return_rd_def del: le_bytes.simps)
next
  case (VI64 x)
  with assms have "sint (word_of_int x :: 64 word) = x" by (simp add: sint_sbintrunc' signed_take_bit_int_eq_self)
  with VI64 show ?thesis using read_u64_exact [of "word_of_int x" after]
    by (simp add: write_i64_def read_i64_def write_u64_def native_to_le_def serialize_ostream_write bind_rd_def return_rd_def del: le_bytes.simps)
next
  case (VF32 x) then show ?thesis using read_u32_exact [of "float_bits x" after]
    by (simp add: write_f32_def read_f32_def write_u32_def native_to_le_def serialize_ostream_write bind_rd_def return_rd_def del: le_bytes.simps)
next
  case (VF64 x) then show ?thesis using read_u64_exact [of "double_bits x" after]
    by (simp add: write_f64_def read_f64_def write_u64_def native_to_le_def serialize_ostream_write bind_rd_def return_rd_def del: le_bytes.simps)
next
  case (VBool x) then show ?thesis
    using read_u8_exact [of 1 after] read_u8_exact [of 0 after]
    by (cases x) (simp_all add: write_bool_def read_bool_def write_u8_def serialize_ostream_write bind_rd_def return_rd_def del: le_bytes.simps)
next
  case (VString x)
  have "serialize (write_string x) = le_bytes 4 (of_nat (length x) :: 32 word) @ map byte_of_char x"
    using serialize_ostream_write write_string_eq by (metis ext)
  with VString assms show ?thesis using read_string_exact [of x after]
    by (simp add: bind_rd_def return_rd_def del: le_bytes.simps)
next
  case (VBytes x)
  have "serialize (write_bytes x) = le_bytes 4 (of_nat (length x) :: 32 word) @ x"
    using serialize_ostream_write write_bytes_eq by (metis ext)
  with VBytes assms show ?thesis using read_bytes_exact [of x after]
    by (simp add: bind_rd_def return_rd_def del: le_bytes.simps)
qed

lemma serialize_write_string:
  "serialize (write_string v) = le_bytes 4 (of_nat (length v) :: 32 word) @ map byte_of_char v"
  using serialize_ostream_write write_string_eq by (metis ext)

lemma read_vector_empty:
  "read_vector read_func (BinaryReader_vector (serialize (write_vector [] write_func) @ after))
     = (Inr [], BinaryReader_vector after)"
proof -
  have "write_vector [] write_func = ostream_write (le_bytes 4 (0 :: 32 word))"
    by (rule ext) (simp add: write_vector_def write_u32_def native_to_le_def del: le_bytes.simps)
  then show ?thesis
    using read_u32_exact [of 0 after]
    by (simp add: read_vector_unfold serialize_ostream_write bind_rd_def del: le_bytes.simps)
qed

text \<open>
  Claim C1, as the code has it. For every primitive wire value \<open>v\<close> (a signed integer
  within the range of its type) whose size, for a string or a byte vector, is below
  \<open>2 ^ 32\<close>: decoding the bytes produced by encoding \<open>v\<close> returns \<open>v\<close>, and the decode
  consumes exactly those bytes. Floating-point values are carried by their bit pattern.
  The empty sequence round-trips for every element codec.
\<close>

theorem wire_roundtrip:
  assumes "well_typed v" and "length_fits v"
  shows "deserialize (read_value (kind_of v)) (serialize (write_value v)) = Inr v
    \<and> read_value (kind_of v) (BinaryReader_vector (serialize (write_value v) @ after))
        = (Inr v, BinaryReader_vector after)
    \<and> deserialize (read_vector read_func) (serialize (write_vector [] write_func)) = Inr []"
  using read_value_write_value [OF assms, of after] read_value_write_value [OF assms, of "[]"]
    read_vector_empty [of read_func write_func "[]"]
  by (simp add: deserialize_def)

text \<open>
  The boundary values of the claim: \<open>i64\<close> minimum, \<open>u8\<close> maximum, the empty string, empty
  bytes and the empty sequence.
\<close>

theorem wire_roundtrip_witness:
  "well_typed (VI64 (- 9223372036854775808)) \<and> length_fits (VI64 (- 9223372036854775808))
   \<and> deserialize (read_value KI64) (serialize (write_value (VI64 (- 9223372036854775808))))
       = Inr (VI64 (- 9223372036854775808))
   \<and> deserialize (read_value KU8) (serialize (write_value (VU8 255))) = Inr (VU8 255)
   \<and> deserialize (read_value KString) (serialize (write_value (VString ''''))) = Inr (VString '''')
   \<and> deserialize (read_value KBytes) (serialize (write_value (VBytes []))) = Inr (VBytes [])
   \<and> deserialize (read_vector read_u8) (serialize (write_vector [] write_u8)) = Inr []"
  using wire_roundtrip [of "VI64 (- 9223372036854775808)" "[]" read_u8 write_u8]
    wire_roundtrip [of "VU8 255" "[]" read_u8 write_u8]
    wire_roundtrip [of "VString []" "[]" read_u8 write_u8]
    wire_roundtrip [of "VBytes []" "[]" read_u8 write_u8]
  by simp

text \<open>
  A string of \<open>2 ^ 32\<close> bytes: \<^verbatim>\<open>static_cast<uint32_t>(value.size())\<close> is \<open>0\<close>, so the
  prefix written is \<open>0\<close> and the reader returns the empty string.
\<close>

lemma read_string_wrapped:
  assumes "length v = 2 ^ 32"
  shows "read_string (BinaryReader_vector (serialize (write_string v)))
    = (Inr '''', BinaryReader_vector (map byte_of_char v))"
proof -
  have "(of_nat (length v) :: 32 word) = 0" using assms by simp
  then show ?thesis
    using read_u32_exact [of 0 "map byte_of_char v"]
    by (simp add: serialize_write_string read_string_unfold bind_rd_def return_rd_def
        del: le_bytes.simps)
qed

text \<open>
  Claim C1 as stated, for every string, fails at the string of \<open>2 ^ 32\<close> characters \<open>a\<close>:
  what is decoded from its encoding is not the string.
\<close>

theorem wire_roundtrip_long_string_counterexample:
  "deserialize (read_value (kind_of (VString (replicate (2 ^ 32) CHR ''a''))))
     (serialize (write_value (VString (replicate (2 ^ 32) CHR ''a''))))
   \<noteq> Inr (VString (replicate (2 ^ 32) CHR ''a''))"
proof -
  have "read_string (BinaryReader_vector (serialize (write_string (replicate (2 ^ 32) CHR ''a''))))
      = (Inr '''', BinaryReader_vector (map byte_of_char (replicate (2 ^ 32) CHR ''a'')))"
    by (rule read_string_wrapped) (simp only: length_replicate)
  then have "deserialize (read_value KString) (serialize (write_string (replicate (2 ^ 32) CHR ''a'')))
      = Inr (VString '''')"
    by (simp add: deserialize_def bind_rd_def return_rd_def)
  moreover have "replicate (2 ^ 32) CHR ''a'' \<noteq> ''''"
    by (simp only: replicate_empty) simp
  ultimately show ?thesis by simp
qed

section \<open>Failure of the reads\<close>


lemma fst_bind_rd_Inl: "fst (m s) = Inl e \<Longrightarrow> fst (bind_rd m f s) = Inl e"
  by (cases "m s") (simp add: bind_rd_def)


lemma snd_bind_rd_return:
  "snd (bind_rd m (\<lambda>v. return_rd (f v)) s) = snd (m s)"
  by (cases "m s") (auto simp: bind_rd_def return_rd_def split: sum.splits)






lemma read_u8_Cons:
  "read_u8 (BinaryReader_vector (b # bs)) = (Inr b, BinaryReader_vector bs)"
  using read_u8_exact [of b bs] by simp

lemma read_optional_Cons:
  "read_optional read_func (BinaryReader_vector (b # bs)) =
     (if b = 0 then (Inr None, BinaryReader_vector bs)
      else (case read_func (BinaryReader_vector bs) of
              (Inl e, s') \<Rightarrow> (Inl e, s')
            | (Inr v, s') \<Rightarrow> (Inr (Some v), s')))"
  by (auto simp: read_optional_def bind_rd_def return_rd_def read_u8_Cons split: prod.splits sum.splits)















lemma read_value_alloc_enough_memory: "read_value_alloc enough_memory k = read_value k"
  by (cases k) (simp_all add: read_string_def read_bytes_def)

section \<open>Truncated input\<close>




section \<open>Optional values\<close>

text \<open>
  Claim C3. An absent optional is written as the one byte \<open>0\<close> and read back as absent.
  A present optional is written as the byte \<open>1\<close> followed by exactly what the callback
  writes for the value, and is read back as present with an equal value, for every
  callback that only appends to the writer and every reader that decodes what the
  callback wrote.
\<close>

theorem optional_roundtrip:
  "serialize (write_optional None write_func) = [0]
   \<and> deserialize (read_optional read_func) (serialize (write_optional None write_func)) = Inr None
   \<and> ((\<forall>w. write_func v w = ostream_write (serialize (write_func v)) w) \<longrightarrow>
        serialize (write_optional (Some v) write_func) = 1 # serialize (write_func v))
   \<and> ((\<forall>w. write_func v w = ostream_write (serialize (write_func v)) w)
        \<and> deserialize read_func (serialize (write_func v)) = Inr v \<longrightarrow>
        deserialize (read_optional read_func) (serialize (write_optional (Some v) write_func))
          = Inr (Some v))"
proof -
  have none: "write_optional None write_func = ostream_write [0]"
    by (rule ext) (simp add: write_optional_def write_u8_def)
  have some: "serialize (write_optional (Some v) write_func) = 1 # serialize (write_func v)"
    if "\<forall>w. write_func v w = ostream_write (serialize (write_func v)) w"
  proof -
    have "write_optional (Some v) write_func = ostream_write (1 # serialize (write_func v))"
      by (rule ext) (simp add: write_optional_def write_u8_def that [rule_format] ostream_write_twice)
    then show ?thesis by (simp add: serialize_ostream_write)
  qed
  have dec: "deserialize (read_optional read_func) (1 # bs) = Inr (Some v)"
    if "deserialize read_func bs = Inr v" for bs
    using that by (cases "read_func (BinaryReader_vector bs)")
      (simp add: deserialize_def read_optional_Cons)
  have absent: "deserialize (read_optional read_func) [0] = Inr None"
    by (simp add: deserialize_def read_optional_Cons)
  show ?thesis
    using some dec [of "serialize (write_func v)"]
    by (simp add: none serialize_ostream_write absent)
qed

theorem optional_roundtrip_witness:
  "(\<forall>w. write_u32 7 w = ostream_write (serialize (write_u32 7)) w)
   \<and> deserialize read_u32 (serialize (write_u32 7)) = Inr 7
   \<and> serialize (write_optional None write_u32) = [0]
   \<and> deserialize (read_optional read_u32) (serialize (write_optional None write_u32)) = Inr None
   \<and> serialize (write_optional (Some 7) write_u32) = 1 # serialize (write_u32 7)
   \<and> serialize (write_u32 7) = [7, 0, 0, 0]
   \<and> deserialize (read_optional read_u32) (serialize (write_optional (Some 7) write_u32)) = Inr (Some 7)"
proof -
  have a: "\<forall>w. write_u32 7 w = ostream_write (serialize (write_u32 7)) w"
    by (simp add: write_u32_def serialize_ostream_write)
  have b: "deserialize read_u32 (serialize (write_u32 7)) = Inr 7"
    by code_simp
  have c: "serialize (write_u32 7) = [7, 0, 0, 0]"
    by code_simp
  show ?thesis
    using optional_roundtrip [of write_u32 read_u32 7] a b c by blast
qed

text \<open>
  Claim C9. \<open>read_optional\<close> and \<open>read_optional_string\<close> on input that begins with the
  flag byte \<open>b\<close>: only \<open>b = 0\<close> reads as absent; every other flag, not only \<open>1\<close>, goes on
  to decode the value from the bytes that follow.
\<close>

theorem optional_flag_nonzero:
  "read_optional read_func (BinaryReader_vector (b # bs)) =
     (if b = 0 then (Inr None, BinaryReader_vector bs)
      else (case read_func (BinaryReader_vector bs) of
              (Inl e, s') \<Rightarrow> (Inl e, s')
            | (Inr v, s') \<Rightarrow> (Inr (Some v), s')))
   \<and> read_optional_string (BinaryReader_vector (b # bs)) =
     (if b = 0 then (Inr None, BinaryReader_vector bs)
      else (case read_string (BinaryReader_vector bs) of
              (Inl e, s') \<Rightarrow> (Inl e, s')
            | (Inr v, s') \<Rightarrow> (Inr (Some v), s')))"
  by (auto simp: read_optional_Cons read_optional_string_unfold bind_rd_def return_rd_def read_u8_Cons
      split: prod.splits sum.splits)

theorem optional_flag_nonzero_witness:
  "read_optional read_u8 (BinaryReader_vector [2, 7]) = (Inr (Some 7), BinaryReader_vector [])
   \<and> read_optional read_u8 (BinaryReader_vector [255, 7]) = (Inr (Some 7), BinaryReader_vector [])
   \<and> read_optional read_u8 (BinaryReader_vector [0, 7]) = (Inr None, BinaryReader_vector [7])
   \<and> read_optional_string (BinaryReader_vector [2, 1, 0, 0, 0, 97]) = (Inr (Some ''a''), BinaryReader_vector [])"
proof -
  have s: "read_string (BinaryReader_vector [1, 0, 0, 0, 97]) = (Inr ''a'', BinaryReader_vector [])"
    by code_simp
  have u: "read_u8 (BinaryReader_vector [7]) = (Inr 7, BinaryReader_vector [])"
    by (rule read_u8_Cons)
  have "read_optional read_u8 (BinaryReader_vector [2, 7]) = (Inr (Some 7), BinaryReader_vector [])"
    using optional_flag_nonzero [of read_u8 2 "[7]"] by (simp add: u)
  moreover have "read_optional read_u8 (BinaryReader_vector [255, 7]) = (Inr (Some 7), BinaryReader_vector [])"
    using optional_flag_nonzero [of read_u8 255 "[7]"] by (simp add: u)
  moreover have "read_optional read_u8 (BinaryReader_vector [0, 7]) = (Inr None, BinaryReader_vector [7])"
    using optional_flag_nonzero [of read_u8 0 "[7]"] by simp
  moreover have "read_optional_string (BinaryReader_vector [2, 1, 0, 0, 0, 97]) = (Inr (Some ''a''), BinaryReader_vector [])"
    using optional_flag_nonzero [of read_u8 2 "[1, 0, 0, 0, 97]"] by (simp add: s)
  ultimately show ?thesis by blast
qed

section \<open>Indexes and the row store\<close>

lemma unique_index_fold_other:
  "k \<notin> fst ` set ops \<Longrightarrow>
   unique_index (fold (\<lambda>(k', r). UniqueIndex_insert k' r) ops idx) k = unique_index idx k"
  by (induction ops arbitrary: idx) (auto simp: UniqueIndex_insert_def)

text \<open>
  Claim C4. In a \<open>UniqueIndex\<close>, after \<open>insert(k, r1)\<close> and then \<open>insert(k, r2)\<close>,
  \<open>get(k)\<close> returns \<open>r2\<close>. For a key that no insert into a fresh index has used, \<open>get\<close>
  returns the null pointer (not found, not an error) and \<open>contains\<close> is false.
\<close>

theorem unique_index_last_write_wins:
  "UniqueIndex_get (UniqueIndex_insert k r2 (UniqueIndex_insert k r1 idx)) k = r2
   \<and> (k \<notin> fst ` set ops \<longrightarrow>
        UniqueIndex_get (fold (\<lambda>(k', r). UniqueIndex_insert k' r) ops UniqueIndex_empty) k = nullptr
        \<and> \<not> UniqueIndex_contains (fold (\<lambda>(k', r). UniqueIndex_insert k' r) ops UniqueIndex_empty) k)"
  by (simp add: UniqueIndex_get_def UniqueIndex_contains_def unique_index_fold_other)
    (simp add: UniqueIndex_insert_def UniqueIndex_empty_def)

theorem unique_index_last_write_wins_witness:
  "(999 :: nat) \<notin> fst ` set [(1, Ptr (0 :: nat)), (2, Ptr 1)]
   \<and> UniqueIndex_get (fold (\<lambda>(k', r). UniqueIndex_insert k' r) [(1, Ptr (0 :: nat)), (2, Ptr 1)] UniqueIndex_empty) (999 :: nat) = nullptr
   \<and> \<not> UniqueIndex_contains (fold (\<lambda>(k', r). UniqueIndex_insert k' r) [(1, Ptr (0 :: nat)), (2, Ptr 1)] UniqueIndex_empty) (999 :: nat)
   \<and> UniqueIndex_get (UniqueIndex_insert (1 :: nat) (Ptr (20 :: nat)) (UniqueIndex_insert 1 (Ptr 10) UniqueIndex_empty)) 1 = Ptr 20"
proof -
  have h: "(999 :: nat) \<notin> fst ` set [(1, Ptr (0 :: nat)), (2, Ptr 1)]" by simp
  show ?thesis
    using h unique_index_last_write_wins
      [of "1 :: nat" "Ptr (20 :: nat)" "Ptr 10" UniqueIndex_empty]
      unique_index_last_write_wins
      [of "999 :: nat" "Ptr (20 :: nat)" "Ptr 10" UniqueIndex_empty "[(1, Ptr (0 :: nat)), (2, Ptr 1)]"]
    by blast
qed

lemma filter_key_absent:
  "k \<notin> fst ` set ops \<Longrightarrow> filter (\<lambda>(k', r). k' = k) ops = []"
  by (induction ops) auto

lemma group_index_fold:
  "group_index (fold (\<lambda>(k', r). GroupIndex_insert k' r) ops idx) k =
     (if k \<in> fst ` set ops
      then Some ((case group_index idx k of Some vs \<Rightarrow> vs | None \<Rightarrow> [])
                   @ map snd (filter (\<lambda>(k', r). k' = k) ops))
      else group_index idx k)"
proof (induction ops arbitrary: idx)
  case Nil
  show ?case by simp
next
  case (Cons a ops)
  obtain k' r where a: "a = (k', r)" by (cases a)
  show ?case
    by (simp add: a Cons.IH)
      (auto simp: GroupIndex_insert_def filter_key_absent split: option.splits)
qed

text \<open>
  Claim C5. In a \<open>GroupIndex\<close>, after a sequence of inserts into a fresh index, \<open>get(k)\<close>
  returns exactly the row pointers inserted under \<open>k\<close>, in insertion order. For a key
  with no insertion, \<open>get\<close> returns the empty sequence and \<open>contains\<close> is false.
\<close>

theorem group_index_insertion_order:
  "GroupIndex_get (fold (\<lambda>(k', r). GroupIndex_insert k' r) ops GroupIndex_empty) k
     = map snd (filter (\<lambda>(k', r). k' = k) ops)
   \<and> GroupIndex_contains (fold (\<lambda>(k', r). GroupIndex_insert k' r) ops GroupIndex_empty) k
     = (k \<in> fst ` set ops)
   \<and> (k \<notin> fst ` set ops \<longrightarrow>
        GroupIndex_get (fold (\<lambda>(k', r). GroupIndex_insert k' r) ops GroupIndex_empty) k = []
        \<and> \<not> GroupIndex_contains (fold (\<lambda>(k', r). GroupIndex_insert k' r) ops GroupIndex_empty) k)"
proof -
  have "k \<notin> fst ` set ops \<Longrightarrow> filter (\<lambda>(k', r). k' = k) ops = []"
    by (rule filter_key_absent)
  then show ?thesis
    by (auto simp: GroupIndex_get_def GroupIndex_contains_def group_index_fold GroupIndex_empty_def)
qed

theorem group_index_insertion_order_witness:
  "GroupIndex_get (fold (\<lambda>(k', r). GroupIndex_insert k' r)
      [(1 :: nat, Ptr (0 :: nat)), (2, Ptr 1), (1, Ptr 2)] GroupIndex_empty) 1 = [Ptr 0, Ptr 2]
   \<and> (3 :: nat) \<notin> fst ` set [(1 :: nat, Ptr (0 :: nat)), (2, Ptr 1), (1, Ptr 2)]
   \<and> GroupIndex_get (fold (\<lambda>(k', r). GroupIndex_insert k' r)
      [(1 :: nat, Ptr (0 :: nat)), (2, Ptr 1), (1, Ptr 2)] GroupIndex_empty) 3 = []
   \<and> \<not> GroupIndex_contains (fold (\<lambda>(k', r). GroupIndex_insert k' r)
      [(1 :: nat, Ptr (0 :: nat)), (2, Ptr 1), (1, Ptr 2)] GroupIndex_empty) 3"
  using group_index_insertion_order [of "[(1 :: nat, Ptr (0 :: nat)), (2, Ptr 1), (1, Ptr 2)]" 1]
    group_index_insertion_order [of "[(1 :: nat, Ptr (0 :: nat)), (2, Ptr 1), (1, Ptr 2)]" 3]
  by simp

lemma rows_fold_add_row: "rows (fold add_row rs t) = rows t @ rs"
  by (induction rs arbitrary: t) (simp_all add: add_row_def)

text \<open>
  Claim C6. Further \<open>add_row\<close> calls leave the row at every position \<open>i < count()\<close>, and
  what a pointer to it refers to, unchanged; the row that an \<open>add_row\<close> stored stays where
  it was stored across any number of further \<open>add_row\<close> calls; and \<open>count()\<close> grows by
  exactly one per \<open>add_row\<close>.
\<close>

theorem row_store_stable:
  "(i < count t \<longrightarrow>
      DataTable_at (fold add_row rs t) i = DataTable_at t i
      \<and> deref (fold add_row rs t) (Ptr i) = deref t (Ptr i)
      \<and> DataTable_at t i = Some (rows t ! i))
   \<and> DataTable_at (fold add_row rs (add_row r t)) (count t) = Some r
   \<and> count (add_row r t) = count t + 1
   \<and> count (fold add_row rs t) = count t + length rs"
  by (simp add: DataTable_at_def deref_def count_def rows_fold_add_row nth_append)
    (simp add: add_row_def)

theorem row_store_stable_witness:
  "0 < count (add_row ''a'' DataTable_empty)
   \<and> DataTable_at (fold add_row [''b'', ''c''] (add_row ''a'' DataTable_empty)) 0 = Some ''a''
   \<and> deref (fold add_row [''b'', ''c''] (add_row ''a'' DataTable_empty)) (Ptr 0) = Some ''a''
   \<and> count (fold add_row [''b'', ''c''] (add_row ''a'' DataTable_empty)) = 3"
proof -
  have h: "0 < count (add_row ''a'' DataTable_empty)"
    by (simp add: count_def add_row_def DataTable_empty_def)
  have a: "DataTable_at (add_row ''a'' DataTable_empty) 0 = Some ''a''"
    by (simp add: DataTable_at_def add_row_def DataTable_empty_def)
  have c: "count (add_row ''a'' DataTable_empty) = 1"
    by (simp add: count_def add_row_def DataTable_empty_def)
  show ?thesis
    using h row_store_stable [of 0 "add_row ''a'' DataTable_empty" "[''b'', ''c'']" "''d''"]
    by (simp add: a c deref_def)
qed

lemma table_rows_fold:
  "rows (table_rows (fold (Table_add_row key_of group_of) rs c)) = rows (table_rows c) @ rs"
  by (induction rs arbitrary: c) (simp_all add: Table_add_row_def Let_def add_row_def)

lemma by_key_fold_keeps:
  "UniqueIndex_contains (by_key c) k \<Longrightarrow>
   UniqueIndex_contains (by_key (fold (Table_add_row key_of group_of) rs c)) k"
  by (induction rs arbitrary: c)
    (simp_all add: Table_add_row_def Let_def UniqueIndex_contains_def UniqueIndex_insert_def)

lemma by_group_fold_keeps:
  "GroupIndex_contains (by_group c) g \<Longrightarrow>
   GroupIndex_contains (by_group (fold (Table_add_row key_of group_of) rs c)) g"
  by (induction rs arbitrary: c)
    (simp_all add: Table_add_row_def Let_def GroupIndex_contains_def GroupIndex_insert_def)

lemma by_key_fold_contains:
  "r \<in> set rs \<Longrightarrow>
   UniqueIndex_contains (by_key (fold (Table_add_row key_of group_of) rs c)) (key_of r)"
proof (induction rs arbitrary: c)
  case Nil
  then show ?case by simp
next
  case (Cons a rs)
  show ?case
  proof (cases "r = a")
    case True
    have "UniqueIndex_contains (by_key (Table_add_row key_of group_of a c)) (key_of a)"
      by (simp add: Table_add_row_def Let_def UniqueIndex_contains_def UniqueIndex_insert_def)
    with True show ?thesis by (simp add: by_key_fold_keeps)
  next
    case False
    with Cons show ?thesis by simp
  qed
qed

lemma by_group_fold_contains:
  "r \<in> set rs \<Longrightarrow>
   GroupIndex_contains (by_group (fold (Table_add_row key_of group_of) rs c)) (group_of r)"
proof (induction rs arbitrary: c)
  case Nil
  then show ?case by simp
next
  case (Cons a rs)
  show ?case
  proof (cases "r = a")
    case True
    have "GroupIndex_contains (by_group (Table_add_row key_of group_of a c)) (group_of a)"
      by (simp add: Table_add_row_def Let_def GroupIndex_contains_def GroupIndex_insert_def)
    with True show ?thesis by (simp add: by_group_fold_keeps)
  next
    case False
    with Cons show ?thesis by simp
  qed
qed

text \<open>
  Claim C7. For a table of the container populated by \<open>add_row\<close> calls, every key of a
  stored row is present in the indexes; after the table is cleared, \<open>count()\<close> is \<open>0\<close> and
  the lookups of those keys report not found (the null pointer from the unique index,
  the empty sequence from the group index).
\<close>

theorem clear_semantics:
  assumes "r \<in> set rs"
  shows "count (table_rows (fold (Table_add_row key_of group_of) rs Table_empty)) = length rs
    \<and> UniqueIndex_contains (by_key (fold (Table_add_row key_of group_of) rs Table_empty)) (key_of r)
    \<and> GroupIndex_contains (by_group (fold (Table_add_row key_of group_of) rs Table_empty)) (group_of r)
    \<and> count (table_rows (Table_clear (fold (Table_add_row key_of group_of) rs Table_empty))) = 0
    \<and> UniqueIndex_get (by_key (Table_clear (fold (Table_add_row key_of group_of) rs Table_empty))) (key_of r) = nullptr
    \<and> \<not> UniqueIndex_contains (by_key (Table_clear (fold (Table_add_row key_of group_of) rs Table_empty))) (key_of r)
    \<and> GroupIndex_get (by_group (Table_clear (fold (Table_add_row key_of group_of) rs Table_empty))) (group_of r) = []
    \<and> \<not> GroupIndex_contains (by_group (Table_clear (fold (Table_add_row key_of group_of) rs Table_empty))) (group_of r)"
  using by_key_fold_contains [OF assms, of key_of group_of Table_empty]
    by_group_fold_contains [OF assms, of key_of group_of Table_empty]
  by (simp add: count_def table_rows_fold Table_clear_def DataTable_clear_def UniqueIndex_clear_def
      GroupIndex_clear_def UniqueIndex_get_def UniqueIndex_contains_def GroupIndex_get_def
      GroupIndex_contains_def Table_empty_def DataTable_empty_def)

theorem clear_semantics_witness:
  "(1 :: nat, ''john'') \<in> set [(1, ''john''), (2, ''jane'')]
   \<and> count (table_rows (fold (Table_add_row fst snd) [(1 :: nat, ''john''), (2, ''jane'')] Table_empty)) = 2
   \<and> UniqueIndex_contains (by_key (fold (Table_add_row fst snd) [(1 :: nat, ''john''), (2, ''jane'')] Table_empty)) 1
   \<and> count (table_rows (Table_clear (fold (Table_add_row fst snd) [(1 :: nat, ''john''), (2, ''jane'')] Table_empty))) = 0
   \<and> UniqueIndex_get (by_key (Table_clear (fold (Table_add_row fst snd) [(1 :: nat, ''john''), (2, ''jane'')] Table_empty))) 1 = nullptr
   \<and> GroupIndex_get (by_group (Table_clear (fold (Table_add_row fst snd) [(1 :: nat, ''john''), (2, ''jane'')] Table_empty))) ''john'' = []"
proof -
  have h: "(1 :: nat, ''john'') \<in> set [(1, ''john''), (2, ''jane'')]" by simp
  show ?thesis
    using h clear_semantics [OF h, of fst snd]
    by (simp add: numeral_2_eq_2)
qed

section \<open>Writes and flush\<close>

lemma serialize_appends: "(\<And>w. f w = ostream_write bs w) \<Longrightarrow> serialize f = bs"
proof -
  assume "\<And>w. f w = ostream_write bs w"
  then have "f = ostream_write bs" by (rule ext)
  then show ?thesis by (simp add: serialize_ostream_write)
qed

lemma appends_serialize:
  "(\<And>w. f w = ostream_write bs w) \<Longrightarrow> f w = ostream_write (serialize f) w"
  using serialize_appends [of f bs] by simp

lemma write_value_appends: "\<exists>bs. \<forall>w. write_value v w = ostream_write bs w"
  by (cases v)
    (auto simp: write_u8_def write_u16_def write_u32_def write_u64_def write_i8_def write_i16_def
      write_i32_def write_i64_def write_f32_def write_f64_def write_bool_def write_string_eq
      write_bytes_eq)

lemma write_optional_string_appends: "\<exists>bs. \<forall>w. write_optional_string v w = ostream_write bs w"
  by (cases v) (auto simp: write_optional_string_def write_u8_def write_string_eq ostream_write_twice)

lemma fold_appends:
  "(\<And>x. x \<in> set xs \<Longrightarrow> \<forall>w. f x w = ostream_write (enc x) w) \<Longrightarrow>
   fold f xs w = ostream_write (concat (map enc xs)) w"
proof (induction xs arbitrary: w)
  case Nil
  show ?case by (simp add: ostream_write_def)
next
  case (Cons x xs)
  then show ?case by (simp add: ostream_write_twice)
qed

lemma call_appends: "\<exists>bs. \<forall>w. call c w = ostream_write bs w"
proof (induction c)
  case (Write_value v)
  then show ?case using write_value_appends [of v] by simp
next
  case (Write_enum v)
  then show ?case by (auto simp: write_enum_def write_i32_def write_u32_def)
next
  case (Write_optional_string v)
  then show ?case using write_optional_string_appends [of v] by simp
next
  case (Write_optional v)
  show ?case
  proof (cases v)
    case None
    then show ?thesis by (auto simp: write_optional_def write_u8_def)
  next
    case (Some x)
    with Write_optional obtain bs where "\<forall>w. call x w = ostream_write bs w" by auto
    with Some show ?thesis by (auto simp: write_optional_def write_u8_def ostream_write_twice)
  qed
next
  case (Write_vector items)
  then have "\<forall>x\<in>set items. \<exists>bs. \<forall>w. call x w = ostream_write bs w" by simp
  then obtain enc where enc: "\<forall>x\<in>set items. \<forall>w. call x w = ostream_write (enc x) w"
    by metis
  have "\<forall>w. call (Write_vector items) w
      = ostream_write (le_bytes 4 (of_nat (length items) :: 32 word) @ concat (map enc items)) w"
    using enc
    by (simp add: write_vector_def write_u32_def native_to_le_def fold_appends [of items call enc]
        ostream_write_twice del: le_bytes.simps)
  then show ?case by blast
qed

lemma call_eq: "call c w = ostream_write (serialize (call c)) w"
proof -
  obtain bs where "\<forall>w. call c w = ostream_write bs w" using call_appends by blast
  then show ?thesis using appends_serialize [of "call c" bs w] by simp
qed

lemma fold_call: "fold call cs w = ostream_write (concat (map (\<lambda>c. serialize (call c)) cs)) w"
  by (rule fold_appends) (simp add: call_eq [symmetric])

text \<open>
  Claim C10. For a writer constructed over a vector: no write call changes the vector;
  after any sequence of write calls the vector still holds its prior contents; \<open>flush\<close>,
  and so the destructor, replaces them with the bytes written, which are the
  concatenation, in call order, of what each call writes on its own.
\<close>

theorem writer_flush:
  "vec (call c w) = vec w
   \<and> vec (fold call cs (BinaryWriter_vector d)) = Some d
   \<and> vec (flush (fold call cs (BinaryWriter_vector d)))
       = Some (concat (map (\<lambda>c. serialize (call c)) cs))
   \<and> vec (BinaryWriter_destructor (fold call cs (BinaryWriter_vector d)))
       = Some (concat (map (\<lambda>c. serialize (call c)) cs))"
proof -
  have "vec (call c w) = vec w"
    using call_eq [of c w] by (simp add: ostream_write_def)
  then show ?thesis
    by (simp add: fold_call) (simp add: ostream_write_def flush_def BinaryWriter_destructor_def BinaryWriter_vector_def)
qed

theorem writer_flush_witness:
  "vec (call (Write_value (VU8 1)) (BinaryWriter_vector [9])) = Some [9]
   \<and> vec (fold call [Write_value (VU8 1), Write_value (VString ''ab'')] (BinaryWriter_vector [9])) = Some [9]
   \<and> vec (flush (fold call [Write_value (VU8 1), Write_value (VString ''ab'')] (BinaryWriter_vector [9])))
       = Some [1, 2, 0, 0, 0, 97, 98]
   \<and> vec (BinaryWriter_destructor (fold call [Write_value (VU8 1), Write_value (VString ''ab'')] (BinaryWriter_vector [9])))
       = Some [1, 2, 0, 0, 0, 97, 98]"
proof -
  have e: "concat (map (\<lambda>c. serialize (call c)) [Write_value (VU8 1), Write_value (VString ''ab'')])
      = [1, 2, 0, 0, 0, 97, 98]"
    by code_simp
  have v: "vec (BinaryWriter_vector [9]) = Some [9]"
    by (simp add: BinaryWriter_vector_def)
  show ?thesis
    using writer_flush [of "Write_value (VU8 1)" "BinaryWriter_vector [9]"
        "[Write_value (VU8 1), Write_value (VString ''ab'')]" "[9]"]
    by (simp only: e v) 
qed

section \<open>Pack codec: failure of unpack\<close>

lemma parse_fields_None_iff:
  "length fs = length ps \<Longrightarrow>
   parse_fields fs ps = None \<longleftrightarrow> (\<exists>i<length fs. (fs ! i) (ps ! i) = None)"
proof (induction fs ps rule: list_induct2)
  case Nil
  show ?case by simp
next
  case (Cons f fs p ps)
  show ?case
  proof (cases "f p")
    case None
    then show ?thesis by auto
  next
    case (Some v)
    have "(\<exists>i<Suc (length fs). ((f # fs) ! i) ((p # ps) ! i) = None)
        \<longleftrightarrow> (\<exists>i<length fs. (fs ! i) (ps ! i) = None)"
      using Some by (auto simp: less_Suc_eq_0_disj)
    with Some Cons.IH show ?thesis by (auto split: option.splits)
  qed
qed

text \<open>
  Claim C8. \<open>unpack\<close> signals a failure exactly when the number of parts differs from the
  number of fields or some part does not parse as its field's type; \<open>try_unpack\<close> reports
  false exactly when \<open>unpack\<close> signals a failure, and otherwise reports true with the value
  that \<open>unpack\<close> returns.
\<close>

theorem unpack_failure:
  "((\<exists>e. unpack T s = Inl e) \<longleftrightarrow>
      length (split (delimiter T) s) \<noteq> length (field_parsers T)
      \<or> (\<exists>i<length (field_parsers T). (field_parsers T ! i) (split (delimiter T) s ! i) = None))
   \<and> (try_unpack T s = None \<longleftrightarrow> (\<exists>e. unpack T s = Inl e))
   \<and> (try_unpack T s = Some v \<longleftrightarrow> unpack T s = Inr v)"
proof (cases "length (split (delimiter T) s) = length (field_parsers T)")
  case True
  then show ?thesis
    using parse_fields_None_iff [of "field_parsers T" "split (delimiter T) s"]
    by (auto simp: unpack_def try_unpack_def Let_def split: option.splits)
next
  case False
  then show ?thesis by (simp add: unpack_def try_unpack_def Let_def)
qed

theorem unpack_failure_witness:
  "try_unpack Position ''invalid'' = None
   \<and> (\<exists>e. unpack Position ''invalid'' = Inl e)
   \<and> try_unpack Position ''1.0;2.0'' = Some [1, 2]
   \<and> unpack Position ''1.0;2.0'' = Inr [1, 2]"
proof -
  have a: "try_unpack Position ''invalid'' = None"
    by code_simp
  have b: "try_unpack Position ''1.0;2.0'' = Some [1, 2]"
    by code_simp
  show ?thesis
    using a b unpack_failure [of Position "''invalid''" "[]"]
      unpack_failure [of Position "''1.0;2.0''" "[1, 2]"]
    by blast
qed

end
